theory Spec2Isabelle
  imports
    Main
    "HOL-Library.Char_ord"
    "HOL-Library.List_Lexorder"
    "HOL-Library.Sublist"
    "HOL-Library.Multiset"
begin

section \<open>The new-project wizard of apps/web/src/app/new/page.tsx\<close>

text \<open>
  The page keeps its selections in React state cells and changes them in event handlers
  and effects. Each handler is embedded as a function from the state before to the state
  after; the pure helpers (\<open>latestVersion\<close>, the memoised views and filters, \<open>canCreate\<close>)
  are embedded as functions of their inputs.

  Strings are \<^typ>\<open>string\<close>, ordered code unit by code unit, the order in which
  JavaScript's default \<open>sort()\<close> puts strings. Case mapping and white space are
  modelled for the ASCII range; a code unit outside it has no case and is not white space.
\<close>

subsection \<open>JavaScript objects used as string-keyed records\<close>

text \<open>
  An object used as \<open>Record<string, V>\<close> is a list of key/value pairs in insertion
  order, the order \<open>Object.values\<close> enumerates non-index keys in. Reading a key gives
  its value or \<open>undefined\<close> (\<open>None\<close>); assigning a present key keeps its place,
  assigning an absent key appends it; \<open>delete\<close> drops the key.
\<close>

type_synonym 'v jsobject = "(string \<times> 'v) list"

definition obj_get :: "'v jsobject \<Rightarrow> string \<Rightarrow> 'v option" where
  "obj_get obj k = map_of obj k"

fun obj_set :: "string \<Rightarrow> 'v \<Rightarrow> 'v jsobject \<Rightarrow> 'v jsobject" where
  "obj_set k v [] = [(k, v)]"
| "obj_set k v (p # ps) = (if fst p = k then (k, v) # ps else p # obj_set k v ps)"

definition obj_delete :: "string \<Rightarrow> 'v jsobject \<Rightarrow> 'v jsobject" where
  "obj_delete k obj = filter (\<lambda>p. fst p \<noteq> k) obj"

definition obj_values :: "'v jsobject \<Rightarrow> 'v list" where
  "obj_values obj = map snd obj"

subsection \<open>The pack registry\<close>

record SelectedPack =
  sp_domain :: string
  sp_pack_id :: string
  sp_version :: string

text \<open>
  \<^verbatim>\<open>[...versions].sort().slice(-1)[0] || ""\<close>: the last element of the sorted copy, which
  is \<open>undefined\<close> for an empty list; \<open>||\<close> replaces \<open>undefined\<close> and the empty string
  by the empty string.
\<close>

definition slice_last0 :: "'a list \<Rightarrow> 'a option" where
  "slice_last0 xs = (case xs of [] \<Rightarrow> None | _ # _ \<Rightarrow> Some (last xs))"

definition latestVersion :: "string list \<Rightarrow> string" where
  "latestVersion versions =
     (case slice_last0 (sort versions) of
        None \<Rightarrow> ''''
      | Some v \<Rightarrow> (if v = '''' then '''' else v))"

definition pack_key :: "string \<Rightarrow> string \<Rightarrow> string" where
  "pack_key domain pack_id = domain @ ''/'' @ pack_id"

text \<open>
  \<open>togglePack\<close> and \<open>setPackVersion\<close> hand React an updater of the previous registry;
  the functions below are those updaters. A stored \<open>SelectedPack\<close> is an object and so
  truthy: \<open>if (next[k])\<close> tests presence of the key.
\<close>

definition togglePack ::
  "string \<Rightarrow> string \<Rightarrow> string list \<Rightarrow> SelectedPack jsobject \<Rightarrow> SelectedPack jsobject" where
  "togglePack domain pack_id versions prev =
     (let k = pack_key domain pack_id; next = prev in
      (case obj_get next k of
         Some _ \<Rightarrow> obj_delete k next
       | None \<Rightarrow>
           obj_set k \<lparr>sp_domain = domain, sp_pack_id = pack_id,
                      sp_version = latestVersion versions\<rparr> next))"

definition setPackVersion ::
  "string \<Rightarrow> string \<Rightarrow> string \<Rightarrow> SelectedPack jsobject \<Rightarrow> SelectedPack jsobject" where
  "setPackVersion domain pack_id version prev =
     obj_set (pack_key domain pack_id)
       \<lparr>sp_domain = domain, sp_pack_id = pack_id, sp_version = version\<rparr> prev"

subsection \<open>Catalogue data\<close>

text \<open>
  The catalogues arrive as JSON and are typed \<open>any\<close> in the page. The records below hold
  the properties the page reads. A property read through \<open>||\<close> or \<open>??\<close> with a
  fallback is optional; a list read as \<open>xs || []\<close> is a list, empty when absent.
\<close>

datatype jsvalue = JNull | JBool bool | JNumber int | JString string | JArray "jsvalue list"

record ScopeQuestion =
  q_id :: string
  q_prompt :: string
  q_type :: string
  q_options :: "string list"
  q_default :: "jsvalue option"

record UseCase =
  uc_id :: string
  uc_name :: string
  uc_description :: string
  uc_scope_questions :: "ScopeQuestion list"

record Segment =
  seg_id :: string
  seg_name :: string
  seg_use_cases :: "UseCase list"

record Industry =
  ind_id :: string
  ind_name :: string
  ind_segments :: "Segment list"

record Pack =
  pk_domain :: string
  pk_pack_id :: string
  pk_name :: "string option"
  pk_order :: "int option"
  pk_versions :: "string list"
  pk_source_url :: "string option"


datatype DeploymentEnvironment = AWS_Native | GCP_Native | Azure_Native | Custom_Stack

datatype PackDomainFilter = Filter_all | Filter_governance | Filter_safety | Filter_security

subsection \<open>The state of the page\<close>

text \<open>
  One field for each \<open>useState\<close> cell. \<open>deploymentEnvironment\<close> is \<open>None\<close> for the
  empty string of the "Select" option. The answers are read and written by question id
  only, so they are a map.
\<close>

record wizard =
  industries :: "Industry list"
  packs :: "Pack list"
  err :: "string option"
  name :: string
  description :: string
  industryId :: string
  segmentId :: string
  useCaseId :: string
  answers :: "string \<rightharpoonup> jsvalue"
  selectedPacks :: "SelectedPack jsobject"
  selectedLlms :: "string list"
  deploymentEnvironment :: "DeploymentEnvironment option"
  llmQuery :: string
  packDomainFilter :: PackDomainFilter
  viewerOpen :: bool
  viewerTitle :: string
  viewerUrl :: string

subsection \<open>Memoised views of the hierarchy\<close>

definition segments :: "wizard \<Rightarrow> Segment list" where
  "segments s =
     (case find (\<lambda>x. ind_id x = industryId s) (industries s) of
        None \<Rightarrow> []
      | Some ind \<Rightarrow> ind_segments ind)"

definition useCases :: "wizard \<Rightarrow> UseCase list" where
  "useCases s =
     (case find (\<lambda>x. seg_id x = segmentId s) (segments s) of
        None \<Rightarrow> []
      | Some seg \<Rightarrow> seg_use_cases seg)"

definition useCase :: "wizard \<Rightarrow> UseCase option" where
  "useCase s = find (\<lambda>x. uc_id x = useCaseId s) (useCases s)"

subsection \<open>Effects\<close>

text \<open>
  The loop of the third effect: \<open>defaults\<close> starts empty and receives \<open>q.default\<close> under
  \<open>q.id\<close> for each question, in order, whose \<open>default\<close> is not \<open>undefined\<close>.
\<close>

definition defaults_step :: "ScopeQuestion \<Rightarrow> (string \<rightharpoonup> jsvalue) \<Rightarrow> (string \<rightharpoonup> jsvalue)" where
  "defaults_step q defaults =
     (case q_default q of None \<Rightarrow> defaults | Some d \<Rightarrow> defaults(q_id q \<mapsto> d))"

definition scope_defaults :: "ScopeQuestion list \<Rightarrow> (string \<rightharpoonup> jsvalue)" where
  "scope_defaults qs = fold defaults_step qs Map.empty"

text \<open>
  An effect reads the values of the render it belongs to and queues state updates. The
  first two effects read nothing; the third reads \<open>useCase\<close> of its render \<open>r\<close>. The
  second argument is the state with the updates queued so far.
\<close>

definition industryEffect :: "wizard \<Rightarrow> wizard" where
  "industryEffect s = s\<lparr>segmentId := '''', useCaseId := '''', answers := Map.empty\<rparr>"

definition segmentEffect :: "wizard \<Rightarrow> wizard" where
  "segmentEffect s = s\<lparr>useCaseId := '''', answers := Map.empty\<rparr>"

definition useCaseEffect :: "wizard \<Rightarrow> wizard \<Rightarrow> wizard" where
  "useCaseEffect r s =
     (case useCase r of
        None \<Rightarrow> s
      | Some uc \<Rightarrow> s\<lparr>answers := scope_defaults (uc_scope_questions uc)\<rparr>)"

text \<open>
  React's part. After a render is committed, each effect whose dependency differs from
  its value in the previous render runs, in the order of declaration, all of them on the
  values of the render just committed; the queued updates are applied together and the
  page renders again. A setter called with the value the cell already holds changes
  nothing and no effect runs. \<open>settle prev cur\<close> is the state the page comes to rest in
  when \<open>cur\<close> has been rendered after \<open>prev\<close>.
\<close>

definition runEffects :: "wizard \<Rightarrow> wizard \<Rightarrow> wizard" where
  "runEffects prev cur =
     (let s1 = (if industryId cur \<noteq> industryId prev then industryEffect cur else cur);
          s2 = (if segmentId cur \<noteq> segmentId prev then segmentEffect s1 else s1);
          s3 = (if useCaseId cur \<noteq> useCaseId prev then useCaseEffect cur s2 else s2)
      in s3)"

definition same_deps :: "wizard \<Rightarrow> wizard \<Rightarrow> bool" where
  "same_deps prev cur \<longleftrightarrow>
     industryId cur = industryId prev \<and> segmentId cur = segmentId prev
     \<and> useCaseId cur = useCaseId prev"

definition selected_below :: "wizard \<Rightarrow> nat" where
  "selected_below s =
     (if segmentId s = '''' then 0 else 1) + (if useCaseId s = '''' then 0 else 1)"

function settle :: "wizard \<Rightarrow> wizard \<Rightarrow> wizard" where
  "settle prev cur = (if same_deps prev cur then cur else settle cur (runEffects prev cur))"
  by pat_completeness auto
termination
proof (relation "measure (\<lambda>(prev, cur). 2 * selected_below cur
                                          + (if same_deps prev cur then 0 else 1))")
  show "wf (measure (\<lambda>(prev, cur). 2 * selected_below cur
                                    + (if same_deps prev cur then 0 else 1)))"
    by simp
next
  fix prev cur :: wizard
  assume "\<not> same_deps prev cur"
  then show "((cur, runEffects prev cur), (prev, cur))
             \<in> measure (\<lambda>(prev, cur). 2 * selected_below cur
                                       + (if same_deps prev cur then 0 else 1))"
    by (auto simp: same_deps_def selected_below_def runEffects_def Let_def industryEffect_def
          segmentEffect_def useCaseEffect_def split: option.splits)
qed

text \<open>The three \<open>onChange\<close> handlers of the hierarchy, with the effects they set off.\<close>

definition setIndustryId :: "string \<Rightarrow> wizard \<Rightarrow> wizard" where
  "setIndustryId v s = settle s (s\<lparr>industryId := v\<rparr>)"

definition setSegmentId :: "string \<Rightarrow> wizard \<Rightarrow> wizard" where
  "setSegmentId v s = settle s (s\<lparr>segmentId := v\<rparr>)"

definition setUseCaseId :: "string \<Rightarrow> wizard \<Rightarrow> wizard" where
  "setUseCaseId v s = settle s (s\<lparr>useCaseId := v\<rparr>)"

subsection \<open>Readiness\<close>

text \<open>
  \<open>canCreate\<close> is an \<open>&&\<close> chain used for its truthiness: a string counts when it is
  not empty.
\<close>

definition canCreate :: "wizard \<Rightarrow> bool" where
  "canCreate s \<longleftrightarrow>
     industryId s \<noteq> '''' \<and> segmentId s \<noteq> '''' \<and> useCaseId s \<noteq> ''''
     \<and> deploymentEnvironment s \<noteq> None
     \<and> length (selectedLlms s) > 0
     \<and> length (obj_values (selectedPacks s)) > 0"

subsection \<open>Submission\<close>

record payload =
  p_name :: string
  p_description :: "string option"
  p_industry_id :: string
  p_segment_id :: string
  p_use_case_id :: string
  p_scope_answers :: "string \<rightharpoonup> jsvalue"
  p_deployment_environment :: "DeploymentEnvironment option"
  p_selected_llms :: "string list"
  p_selected_packs :: "SelectedPack list"

text \<open>
  What \<open>createProject\<close> rejects with: an error that may carry a \<open>message\<close> and has a
  string form \<open>String(e)\<close>. What it resolves to: an object with a \<open>project_id\<close>.
\<close>

record failure =
  f_message :: "string option"
  f_string :: string

record response =
  project_id :: string

definition build_payload :: "wizard \<Rightarrow> payload" where
  "build_payload s =
     \<lparr>p_name = name s,
      p_description = (if description s = '''' then None else Some (description s)),
      p_industry_id = industryId s,
      p_segment_id = segmentId s,
      p_use_case_id = useCaseId s,
      p_scope_answers = answers s,
      p_deployment_environment = deploymentEnvironment s,
      p_selected_llms = selectedLlms s,
      p_selected_packs = obj_values (selectedPacks s)\<rparr>"

text \<open>\<^verbatim>\<open>e.message || String(e)\<close>\<close>

definition error_text :: "failure \<Rightarrow> string" where
  "error_text e =
     (case f_message e of
        None \<Rightarrow> f_string e
      | Some m \<Rightarrow> (if m = '''' then f_string e else m))"

text \<open>
  The \<open>catch\<close> block, on the state it finds when the call has failed.
\<close>

definition onCreate_catch :: "failure \<Rightarrow> wizard \<Rightarrow> wizard" where
  "onCreate_catch e s = s\<lparr>err := Some (error_text e)\<rparr>"

text \<open>
  \<open>onCreate\<close> with the call to \<open>createProject\<close> as a parameter and no other event
  between the call and its outcome. The second component is the address the page
  navigates to, if any.
\<close>

definition onCreate :: "(payload \<Rightarrow> failure + response) \<Rightarrow> wizard \<Rightarrow> wizard \<times> string option" where
  "onCreate createProject s =
     (let s0 = s\<lparr>err := None\<rparr> in
      (case createProject (build_payload s) of
         Inr res \<Rightarrow> (s0, Some (''/projects/'' @ project_id res))
       | Inl e \<Rightarrow> (onCreate_catch e s0, None)))"

subsection \<open>Strings\<close>






subsection \<open>The model filter\<close>



subsection \<open>The pack sort\<close>










declare settle.simps [simp del]

subsection \<open>A small catalogue and session\<close>

text \<open>
  One industry with one segment and two use cases: \<open>kyc\<close>, whose two questions are a
  boolean with default \<open>true\<close> and a select without default, and \<open>fraud\<close> with one
  string question; a second industry without segments. \<open>example_loaded\<close> is the page
  after the catalogues have arrived, \<open>example_selected\<close> the page after the user has
  walked down to \<open>kyc\<close>, \<open>example_other\<close> the page with \<open>fraud\<close> chosen instead.
\<close>

definition example_questions :: "ScopeQuestion list" where
  "example_questions =
     [\<lparr>q_id = ''a'', q_prompt = ''A?'', q_type = ''boolean'', q_options = [],
       q_default = Some (JBool True)\<rparr>,
      \<lparr>q_id = ''b'', q_prompt = ''B?'', q_type = ''select'', q_options = [''x'', ''y''],
       q_default = None\<rparr>]"

definition example_industries :: "Industry list" where
  "example_industries =
     [\<lparr>ind_id = ''fin'', ind_name = ''Finance'',
       ind_segments =
         [\<lparr>seg_id = ''bank'', seg_name = ''Banking'',
           seg_use_cases =
             [\<lparr>uc_id = ''kyc'', uc_name = ''KYC'', uc_description = ''Know your customer'',
               uc_scope_questions = example_questions\<rparr>,
              \<lparr>uc_id = ''fraud'', uc_name = ''Fraud'', uc_description = ''Fraud detection'',
               uc_scope_questions =
                 [\<lparr>q_id = ''z'', q_prompt = ''Z?'', q_type = ''string'', q_options = [],
                   q_default = Some (JString ''low'')\<rparr>]\<rparr>]\<rparr>]\<rparr>,
      \<lparr>ind_id = ''health'', ind_name = ''Health'', ind_segments = []\<rparr>]"

definition example_loaded :: wizard where
  "example_loaded =
     \<lparr>industries = example_industries, packs = [], err = None,
      name = ''My AI System'', description = '''',
      industryId = '''', segmentId = '''', useCaseId = '''',
      answers = Map.empty, selectedPacks = [], selectedLlms = [],
      deploymentEnvironment = None, llmQuery = '''', packDomainFilter = Filter_all,
      viewerOpen = False, viewerTitle = '''', viewerUrl = ''''\<rparr>"

definition example_selected :: wizard where
  "example_selected =
     example_loaded\<lparr>industryId := ''fin'', segmentId := ''bank'', useCaseId := ''kyc'',
                     answers := [''a'' \<mapsto> JBool True]\<rparr>"


section \<open>Properties\<close>

subsection \<open>Objects\<close>

lemma obj_get_set: "obj_get (obj_set k v obj) k' = (if k' = k then Some v else obj_get obj k')"
  by (induction obj) (auto simp: obj_get_def)

lemma obj_get_delete: "obj_get (obj_delete k obj) k' = (if k' = k then None else obj_get obj k')"
  by (induction obj) (auto simp: obj_get_def obj_delete_def)

lemma obj_get_None_iff: "obj_get obj k = None \<longleftrightarrow> k \<notin> fst ` set obj"
  by (simp add: obj_get_def map_of_eq_None_iff)

lemma obj_set_absent: "obj_get obj k = None \<Longrightarrow> obj_set k v obj = obj @ [(k, v)]"
  by (induction obj) (auto simp: obj_get_def split: if_splits)

lemma obj_delete_absent: "obj_get obj k = None \<Longrightarrow> obj_delete k obj = obj"
  unfolding obj_get_None_iff obj_delete_def by (induction obj) auto

lemma obj_delete_appended:
  "obj_get obj k = None \<Longrightarrow> obj_delete k (obj @ [(k, v)]) = obj"
  using obj_delete_absent [of obj k] by (simp add: obj_delete_def)

subsection \<open>The latest version\<close>

lemma latestVersion_Nil: "latestVersion [] = ''''"
  by (simp add: latestVersion_def slice_last0_def)

lemma last_sorted_Max:
  fixes ys :: "'a::linorder list"
  assumes "sorted ys" "ys \<noteq> []"
  shows "last ys = Max (set ys)"
proof -
  have "\<forall>y\<in>set ys. y \<le> last ys"
    using assms by (induction ys) (auto split: if_splits)
  moreover have "last ys \<in> set ys"
    using assms(2) by simp
  ultimately show ?thesis
    by (simp add: Max_eqI [symmetric])
qed

lemma latestVersion_Max:
  assumes "versions \<noteq> []"
  shows "latestVersion versions = Max (set versions)"
proof -
  have ne: "sort versions \<noteq> []"
    using assms by (metis length_sort length_0_conv)
  have "slice_last0 (sort versions) = Some (last (sort versions))"
    using ne by (simp add: slice_last0_def split: list.splits)
  moreover have "last (sort versions) = Max (set versions)"
    using last_sorted_Max [of "sort versions"] ne by simp
  ultimately show ?thesis
    by (simp add: latestVersion_def)
qed

lemma latestVersion_9_10: "latestVersion [''9'', ''10''] = ''9''"
  by (simp add: latestVersion_def slice_last0_def)

subsection \<open>Registry operations\<close>

text \<open>
  C9. \<open>setPackVersion\<close> on a key that is not in the registry inserts the entry
  \<open>{domain, pack_id, version}\<close> under \<open>domain/pack_id\<close>, after the existing entries;
  every other key reads as before.
\<close>

theorem setPackVersion_absent_inserts:
  assumes "obj_get reg (pack_key domain pack_id) = None"
  shows "obj_get (setPackVersion domain pack_id version reg) (pack_key domain pack_id)
           = Some \<lparr>sp_domain = domain, sp_pack_id = pack_id, sp_version = version\<rparr>
         \<and> setPackVersion domain pack_id version reg
           = reg @ [(pack_key domain pack_id,
                     \<lparr>sp_domain = domain, sp_pack_id = pack_id, sp_version = version\<rparr>)]
         \<and> setPackVersion domain pack_id version reg \<noteq> reg
         \<and> (\<forall>k. k \<noteq> pack_key domain pack_id \<longrightarrow>
               obj_get (setPackVersion domain pack_id version reg) k = obj_get reg k)"
proof (intro conjI allI impI)
  show "setPackVersion domain pack_id version reg
        = reg @ [(pack_key domain pack_id,
                  \<lparr>sp_domain = domain, sp_pack_id = pack_id, sp_version = version\<rparr>)]"
    using assms by (simp add: setPackVersion_def obj_set_absent)
  then show "setPackVersion domain pack_id version reg \<noteq> reg"
    by simp
qed (simp_all add: setPackVersion_def obj_get_set)

theorem setPackVersion_absent_inserts_witness:
  "obj_get [(''safety/s1'', \<lparr>sp_domain = ''safety'', sp_pack_id = ''s1'', sp_version = ''1''\<rparr>)]
     (pack_key ''security'' ''p1'') = None
   \<and> setPackVersion ''security'' ''p1'' ''2.0''
       [(''safety/s1'', \<lparr>sp_domain = ''safety'', sp_pack_id = ''s1'', sp_version = ''1''\<rparr>)]
     = [(''safety/s1'', \<lparr>sp_domain = ''safety'', sp_pack_id = ''s1'', sp_version = ''1''\<rparr>),
        (''security/p1'',
         \<lparr>sp_domain = ''security'', sp_pack_id = ''p1'', sp_version = ''2.0''\<rparr>)]"
proof -
  let ?reg = "[(''safety/s1'',
                \<lparr>sp_domain = ''safety'', sp_pack_id = ''s1'', sp_version = ''1''\<rparr>)]"
  have h: "obj_get ?reg (pack_key ''security'' ''p1'') = None"
    by (simp add: obj_get_def pack_key_def)
  from setPackVersion_absent_inserts [OF h, of "''2.0''"] h show ?thesis
    by (simp add: pack_key_def)
qed

text \<open>
  C10. Toggling in a pack whose version list is empty goes through: the sorted copy has
  no last element, \<open>latestVersion\<close> answers the empty string, and the entry is stored
  with version \<open>""\<close>.
\<close>

theorem togglePack_empty_versions:
  assumes "obj_get reg (pack_key domain pack_id) = None"
  shows "slice_last0 (sort ([] :: string list)) = None
         \<and> latestVersion [] = ''''
         \<and> togglePack domain pack_id [] reg
           = reg @ [(pack_key domain pack_id,
                     \<lparr>sp_domain = domain, sp_pack_id = pack_id, sp_version = ''''\<rparr>)]
         \<and> obj_get (togglePack domain pack_id [] reg) (pack_key domain pack_id)
           = Some \<lparr>sp_domain = domain, sp_pack_id = pack_id, sp_version = ''''\<rparr>"
proof (intro conjI)
  show "togglePack domain pack_id [] reg
        = reg @ [(pack_key domain pack_id,
                  \<lparr>sp_domain = domain, sp_pack_id = pack_id, sp_version = ''''\<rparr>)]"
    using assms by (simp add: togglePack_def latestVersion_Nil obj_set_absent)
  show "obj_get (togglePack domain pack_id [] reg) (pack_key domain pack_id)
        = Some \<lparr>sp_domain = domain, sp_pack_id = pack_id, sp_version = ''''\<rparr>"
    using assms by (simp add: togglePack_def latestVersion_Nil obj_get_set)
qed (simp_all add: slice_last0_def latestVersion_Nil)

theorem togglePack_empty_versions_witness:
  "obj_get ([] :: SelectedPack jsobject) (pack_key ''governance'' ''g1'') = None
   \<and> togglePack ''governance'' ''g1'' [] []
     = [(''governance/g1'',
         \<lparr>sp_domain = ''governance'', sp_pack_id = ''g1'', sp_version = ''''\<rparr>)]"
proof -
  have h: "obj_get ([] :: SelectedPack jsobject) (pack_key ''governance'' ''g1'') = None"
    by (simp add: obj_get_def)
  from togglePack_empty_versions [OF h] h show ?thesis
    by (simp add: pack_key_def)
qed

text \<open>
  C2. A pack toggled into the selection is pinned to the greatest of the supplied version
  strings in the code-unit order of strings, which is not the numeric order: with versions
  \<open>["9", "10"]\<close> the entry stored under \<open>security/p1\<close> has version \<open>"9"\<close>, because
  \<open>"10"\<close> sorts before \<open>"9"\<close>.
\<close>

theorem togglePack_pins_lexicographic_max:
  "(obj_get reg (pack_key domain pack_id) = None \<and> versions \<noteq> [] \<longrightarrow>
      obj_get (togglePack domain pack_id versions reg) (pack_key domain pack_id)
        = Some \<lparr>sp_domain = domain, sp_pack_id = pack_id,
                 sp_version = Max (set versions)\<rparr>)
   \<and> (obj_get reg ''security/p1'' = None \<longrightarrow>
      obj_get (togglePack ''security'' ''p1'' [''9'', ''10''] reg) ''security/p1''
        = Some \<lparr>sp_domain = ''security'', sp_pack_id = ''p1'', sp_version = ''9''\<rparr>)
   \<and> ''10'' < ''9''"
proof (intro conjI impI)
  assume "obj_get reg (pack_key domain pack_id) = None \<and> versions \<noteq> []"
  then show "obj_get (togglePack domain pack_id versions reg) (pack_key domain pack_id)
             = Some \<lparr>sp_domain = domain, sp_pack_id = pack_id,
                      sp_version = Max (set versions)\<rparr>"
    by (simp add: togglePack_def obj_get_set latestVersion_Max)
next
  have k: "pack_key ''security'' ''p1'' = ''security/p1''"
    by (simp add: pack_key_def)
  assume "obj_get reg ''security/p1'' = None"
  then show "obj_get (togglePack ''security'' ''p1'' [''9'', ''10''] reg) ''security/p1''
             = Some \<lparr>sp_domain = ''security'', sp_pack_id = ''p1'', sp_version = ''9''\<rparr>"
    by (simp add: togglePack_def k obj_get_set latestVersion_9_10)
next
  show "''10'' < ''9''"
    by simp
qed

theorem togglePack_pins_lexicographic_max_witness:
  "obj_get ([] :: SelectedPack jsobject) (pack_key ''safety'' ''s2'') = None
   \<and> [''1.2'', ''1.10'', ''1.9''] \<noteq> []
   \<and> Max (set [''1.2'', ''1.10'', ''1.9'']) = ''1.9''
   \<and> obj_get (togglePack ''safety'' ''s2'' [''1.2'', ''1.10'', ''1.9''] []) ''safety/s2''
       = Some \<lparr>sp_domain = ''safety'', sp_pack_id = ''s2'', sp_version = ''1.9''\<rparr>
   \<and> obj_get ([] :: SelectedPack jsobject) ''security/p1'' = None
   \<and> obj_get (togglePack ''security'' ''p1'' [''9'', ''10''] []) ''security/p1''
       = Some \<lparr>sp_domain = ''security'', sp_pack_id = ''p1'', sp_version = ''9''\<rparr>"
proof -
  have h: "obj_get ([] :: SelectedPack jsobject) k = None" for k
    by (simp add: obj_get_def)
  have m: "Max (set [''1.2'', ''1.10'', ''1.9'']) = ''1.9''"
    by (simp add: max_def)
  from togglePack_pins_lexicographic_max
         [of "[]" "''safety''" "''s2''" "[''1.2'', ''1.10'', ''1.9'']"] h m
  show ?thesis
    by (simp add: pack_key_def)
qed

text \<open>
  C1, as the code has it. Toggling twice with the same arguments gives back the very same
  registry when the key was not selected. When the key was selected, the first toggle
  drops the entry with its pinned version and the second stores a fresh entry
  \<open>{domain, pack_id, latestVersion(versions)}\<close> after the other entries. Either way
  every other key is present or absent as before, with the content it had.
\<close>

theorem togglePack_twice:
  "(obj_get reg (pack_key domain pack_id) = None \<longrightarrow>
      togglePack domain pack_id versions (togglePack domain pack_id versions reg) = reg)
   \<and> (obj_get reg (pack_key domain pack_id) \<noteq> None \<longrightarrow>
      togglePack domain pack_id versions (togglePack domain pack_id versions reg)
        = obj_delete (pack_key domain pack_id) reg
          @ [(pack_key domain pack_id,
              \<lparr>sp_domain = domain, sp_pack_id = pack_id,
               sp_version = latestVersion versions\<rparr>)])
   \<and> (\<forall>k. k \<noteq> pack_key domain pack_id \<longrightarrow>
         obj_get (togglePack domain pack_id versions
                    (togglePack domain pack_id versions reg)) k = obj_get reg k)"
proof (intro conjI impI allI)
  assume a: "obj_get reg (pack_key domain pack_id) = None"
  let ?e = "\<lparr>sp_domain = domain, sp_pack_id = pack_id, sp_version = latestVersion versions\<rparr>"
  have first: "togglePack domain pack_id versions reg = obj_set (pack_key domain pack_id) ?e reg"
    using a by (simp add: togglePack_def Let_def)
  have "togglePack domain pack_id versions (obj_set (pack_key domain pack_id) ?e reg)
        = obj_delete (pack_key domain pack_id) (obj_set (pack_key domain pack_id) ?e reg)"
    by (simp add: togglePack_def Let_def obj_get_set)
  also have "\<dots> = reg"
    using a by (simp add: obj_set_absent obj_delete_appended)
  finally show "togglePack domain pack_id versions (togglePack domain pack_id versions reg) = reg"
    by (simp only: first)
next
  assume "obj_get reg (pack_key domain pack_id) \<noteq> None"
  then obtain e where e: "obj_get reg (pack_key domain pack_id) = Some e"
    by blast
  have gone: "obj_get (obj_delete (pack_key domain pack_id) reg) (pack_key domain pack_id) = None"
    by (simp add: obj_get_delete)
  show "togglePack domain pack_id versions (togglePack domain pack_id versions reg)
        = obj_delete (pack_key domain pack_id) reg
          @ [(pack_key domain pack_id,
              \<lparr>sp_domain = domain, sp_pack_id = pack_id,
               sp_version = latestVersion versions\<rparr>)]"
    using e gone by (simp add: togglePack_def Let_def obj_set_absent)
next
  fix k
  assume "k \<noteq> pack_key domain pack_id"
  then show "obj_get (togglePack domain pack_id versions
                        (togglePack domain pack_id versions reg)) k = obj_get reg k"
    by (cases "obj_get reg (pack_key domain pack_id)")
       (simp_all add: togglePack_def Let_def obj_get_set obj_get_delete)
qed

theorem togglePack_twice_witness:
  "obj_get ([] :: SelectedPack jsobject) (pack_key ''security'' ''p1'') = None
   \<and> togglePack ''security'' ''p1'' [''1.0'', ''2.0'']
       (togglePack ''security'' ''p1'' [''1.0'', ''2.0''] []) = []
   \<and> obj_get [(''safety/s1'', \<lparr>sp_domain = ''safety'', sp_pack_id = ''s1'', sp_version = ''1''\<rparr>),
              (''security/p1'',
               \<lparr>sp_domain = ''security'', sp_pack_id = ''p1'', sp_version = ''2.0''\<rparr>)]
       (pack_key ''safety'' ''s1'') \<noteq> None
   \<and> togglePack ''safety'' ''s1'' [''1'', ''3'']
       (togglePack ''safety'' ''s1'' [''1'', ''3'']
         [(''safety/s1'', \<lparr>sp_domain = ''safety'', sp_pack_id = ''s1'', sp_version = ''1''\<rparr>),
          (''security/p1'',
           \<lparr>sp_domain = ''security'', sp_pack_id = ''p1'', sp_version = ''2.0''\<rparr>)])
     = [(''security/p1'',
         \<lparr>sp_domain = ''security'', sp_pack_id = ''p1'', sp_version = ''2.0''\<rparr>),
        (''safety/s1'', \<lparr>sp_domain = ''safety'', sp_pack_id = ''s1'', sp_version = ''3''\<rparr>)]
   \<and> ''security/p1'' \<noteq> pack_key ''safety'' ''s1''
   \<and> obj_get (togglePack ''safety'' ''s1'' [''1'', ''3'']
       (togglePack ''safety'' ''s1'' [''1'', ''3'']
         [(''safety/s1'', \<lparr>sp_domain = ''safety'', sp_pack_id = ''s1'', sp_version = ''1''\<rparr>),
          (''security/p1'',
           \<lparr>sp_domain = ''security'', sp_pack_id = ''p1'', sp_version = ''2.0''\<rparr>)]))
       ''security/p1''
     = Some \<lparr>sp_domain = ''security'', sp_pack_id = ''p1'', sp_version = ''2.0''\<rparr>"
proof -
  let ?reg = "[(''safety/s1'',
                \<lparr>sp_domain = ''safety'', sp_pack_id = ''s1'', sp_version = ''1''\<rparr>),
               (''security/p1'',
                \<lparr>sp_domain = ''security'', sp_pack_id = ''p1'', sp_version = ''2.0''\<rparr>)]"
  have h1: "obj_get ([] :: SelectedPack jsobject) (pack_key ''security'' ''p1'') = None"
    by (simp add: obj_get_def)
  have h2: "obj_get ?reg (pack_key ''safety'' ''s1'') \<noteq> None"
    by (simp add: obj_get_def pack_key_def)
  have h3: "''security/p1'' \<noteq> pack_key ''safety'' ''s1''"
    by (simp add: pack_key_def)
  have l: "latestVersion [''1'', ''3''] = ''3''"
    by (simp add: latestVersion_def slice_last0_def)
  have g: "obj_get ?reg ''security/p1''
           = Some \<lparr>sp_domain = ''security'', sp_pack_id = ''p1'', sp_version = ''2.0''\<rparr>"
    by (simp add: obj_get_def)
  from togglePack_twice [of "[]" "''security''" "''p1''" "[''1.0'', ''2.0'']"]
       togglePack_twice [of ?reg "''safety''" "''s1''" "[''1'', ''3'']"]
       h1 h2 h3 l g
  show ?thesis
    by (simp add: pack_key_def obj_delete_def obj_get_def)
qed

text \<open>
  C1 as stated fails where the key is selected with a version other than the latest one:
  after \<open>setPackVersion\<close> has pinned \<open>1.0\<close>, two toggles leave the pack pinned to \<open>2.0\<close>.
\<close>

theorem togglePack_twice_counterexample:
  "setPackVersion ''security'' ''p1'' ''1.0'' (togglePack ''security'' ''p1'' [''1.0'', ''2.0''] [])
     = [(''security/p1'',
         \<lparr>sp_domain = ''security'', sp_pack_id = ''p1'', sp_version = ''1.0''\<rparr>)]
   \<and> obj_get
       (togglePack ''security'' ''p1'' [''1.0'', ''2.0'']
         (togglePack ''security'' ''p1'' [''1.0'', ''2.0'']
           [(''security/p1'',
             \<lparr>sp_domain = ''security'', sp_pack_id = ''p1'', sp_version = ''1.0''\<rparr>)]))
       ''security/p1''
     = Some \<lparr>sp_domain = ''security'', sp_pack_id = ''p1'', sp_version = ''2.0''\<rparr>
   \<and> obj_get
       (togglePack ''security'' ''p1'' [''1.0'', ''2.0'']
         (togglePack ''security'' ''p1'' [''1.0'', ''2.0'']
           [(''security/p1'',
             \<lparr>sp_domain = ''security'', sp_pack_id = ''p1'', sp_version = ''1.0''\<rparr>)]))
       ''security/p1''
     \<noteq> obj_get
         [(''security/p1'',
           \<lparr>sp_domain = ''security'', sp_pack_id = ''p1'', sp_version = ''1.0''\<rparr>)]
         ''security/p1''"
  by (simp add: togglePack_def Let_def setPackVersion_def pack_key_def obj_get_def
        obj_delete_def latestVersion_def slice_last0_def)

subsection \<open>The cascade\<close>

lemma settle_same: "same_deps prev cur \<Longrightarrow> settle prev cur = cur"
  by (subst settle.simps) simp

lemma settle_step: "\<not> same_deps prev cur \<Longrightarrow> settle prev cur = settle cur (runEffects prev cur)"
  by (subst settle.simps) simp

lemma useCase_answers: "useCase (s\<lparr>answers := a\<rparr>) = useCase s"
  by (simp add: useCase_def useCases_def segments_def)

lemma setIndustryId_changed:
  assumes "v \<noteq> industryId s"
      and "useCase (s\<lparr>industryId := v, segmentId := '''', useCaseId := ''''\<rparr>) = None"
  shows "setIndustryId v s
         = s\<lparr>industryId := v, segmentId := '''', useCaseId := '''', answers := Map.empty\<rparr>"
proof -
  let ?s1 = "s\<lparr>industryId := v\<rparr>"
  let ?s2 = "s\<lparr>industryId := v, segmentId := '''', useCaseId := '''', answers := Map.empty\<rparr>"
  have a: "\<not> same_deps s ?s1"
    using assms(1) by (simp add: same_deps_def)
  have b: "runEffects s ?s1 = ?s2"
    using assms(1) by (simp add: runEffects_def industryEffect_def)
  have uc: "useCase ?s2 = None"
    using assms(2) by (simp add: useCase_answers)
  have c: "runEffects ?s1 ?s2 = ?s2"
    using uc by (simp add: runEffects_def Let_def segmentEffect_def useCaseEffect_def)
  have d: "settle ?s1 ?s2 = ?s2"
  proof (cases "same_deps ?s1 ?s2")
    case True
    then show ?thesis by (rule settle_same)
  next
    case False
    then have "settle ?s1 ?s2 = settle ?s2 (runEffects ?s1 ?s2)"
      by (rule settle_step)
    also have "\<dots> = settle ?s2 ?s2"
      by (simp only: c)
    also have "\<dots> = ?s2"
      by (rule settle_same) (simp add: same_deps_def)
    finally show ?thesis .
  qed
  have "setIndustryId v s = settle ?s1 (runEffects s ?s1)"
    unfolding setIndustryId_def using a by (rule settle_step)
  then show ?thesis
    by (simp only: b d)
qed

lemma setIndustryId_same: "setIndustryId (industryId s) s = s"
  by (simp add: setIndustryId_def settle_same same_deps_def)

lemma setSegmentId_same: "setSegmentId (segmentId s) s = s"
  by (simp add: setSegmentId_def settle_same same_deps_def)

lemma setUseCaseId_same: "setUseCaseId (useCaseId s) s = s"
  by (simp add: setUseCaseId_def settle_same same_deps_def)

lemma setUseCaseId_changed:
  assumes "v \<noteq> useCaseId s"
  shows "setUseCaseId v s = useCaseEffect (s\<lparr>useCaseId := v\<rparr>) (s\<lparr>useCaseId := v\<rparr>)"
proof -
  let ?s1 = "s\<lparr>useCaseId := v\<rparr>"
  let ?s2 = "useCaseEffect ?s1 ?s1"
  have a: "\<not> same_deps s ?s1"
    using assms by (simp add: same_deps_def)
  have b: "runEffects s ?s1 = ?s2"
    using assms by (simp add: runEffects_def)
  have c: "same_deps ?s1 ?s2"
    by (simp add: same_deps_def useCaseEffect_def split: option.splits)
  have "setUseCaseId v s = settle ?s1 (runEffects s ?s1)"
    unfolding setUseCaseId_def using a by (rule settle_step)
  also have "\<dots> = ?s2"
    unfolding b using c by (rule settle_same)
  finally show ?thesis .
qed

lemma setSegmentId_changed:
  assumes "v \<noteq> segmentId s"
      and "useCase (s\<lparr>segmentId := v, useCaseId := ''''\<rparr>) = None"
  shows "setSegmentId v s = s\<lparr>segmentId := v, useCaseId := '''', answers := Map.empty\<rparr>"
proof -
  let ?s1 = "s\<lparr>segmentId := v\<rparr>"
  let ?s2 = "s\<lparr>segmentId := v, useCaseId := '''', answers := Map.empty\<rparr>"
  have a: "\<not> same_deps s ?s1"
    using assms(1) by (simp add: same_deps_def)
  have b: "runEffects s ?s1 = ?s2"
    using assms(1) by (simp add: runEffects_def segmentEffect_def)
  have uc: "useCase ?s2 = None"
    using assms(2) by (simp add: useCase_answers)
  have c: "runEffects ?s1 ?s2 = ?s2"
    using uc by (simp add: runEffects_def Let_def useCaseEffect_def)
  have d: "settle ?s1 ?s2 = ?s2"
  proof (cases "same_deps ?s1 ?s2")
    case True
    then show ?thesis by (rule settle_same)
  next
    case False
    then have "settle ?s1 ?s2 = settle ?s2 (runEffects ?s1 ?s2)"
      by (rule settle_step)
    also have "\<dots> = settle ?s2 ?s2"
      by (simp only: c)
    also have "\<dots> = ?s2"
      by (rule settle_same) (simp add: same_deps_def)
    finally show ?thesis .
  qed
  have "setSegmentId v s = settle ?s1 (runEffects s ?s1)"
    unfolding setSegmentId_def using a by (rule settle_step)
  then show ?thesis
    by (simp only: b d)
qed

subsection \<open>The example session\<close>

lemma useCase_example_selected:
  "useCase example_selected
   = Some \<lparr>uc_id = ''kyc'', uc_name = ''KYC'', uc_description = ''Know your customer'',
           uc_scope_questions = example_questions\<rparr>"
  by (simp add: example_selected_def example_loaded_def example_industries_def
        useCase_def useCases_def segments_def)

lemma scope_defaults_example: "scope_defaults example_questions = [''a'' \<mapsto> JBool True]"
  by (simp add: scope_defaults_def example_questions_def defaults_step_def)

lemma example_selected_reached:
  "setUseCaseId ''kyc'' (setSegmentId ''bank'' (setIndustryId ''fin'' example_loaded))
   = example_selected"
proof -
  have 1: "setIndustryId ''fin'' example_loaded = example_loaded\<lparr>industryId := ''fin''\<rparr>"
    by (subst setIndustryId_changed)
       (simp_all add: example_loaded_def example_industries_def useCase_def useCases_def
          segments_def)
  have 2: "setSegmentId ''bank'' (example_loaded\<lparr>industryId := ''fin''\<rparr>)
           = example_loaded\<lparr>industryId := ''fin'', segmentId := ''bank''\<rparr>"
    by (subst setSegmentId_changed)
       (simp_all add: example_loaded_def example_industries_def useCase_def useCases_def
          segments_def)
  have 3: "setUseCaseId ''kyc'' (example_loaded\<lparr>industryId := ''fin'', segmentId := ''bank''\<rparr>)
           = example_selected"
    by (subst setUseCaseId_changed)
       (simp_all add: example_selected_def example_loaded_def example_industries_def
          useCaseEffect_def useCase_def useCases_def segments_def scope_defaults_example)
  show ?thesis
    by (simp only: 1 2 3)
qed

text \<open>
  C3, as the code has it. The first effect depends on \<open>industryId\<close>, so it runs when the
  chosen id differs from the current one: then segment and use case are cleared and the
  answers are empty, as long as the empty ids select no use case in the new industry
  (they are the values of the "Select" options). Choosing the id that is already selected
  is no change of state: nothing is cleared.
\<close>

theorem setIndustryId_cascade:
  assumes "v \<noteq> industryId s"
      and "useCase (s\<lparr>industryId := v, segmentId := '''', useCaseId := ''''\<rparr>) = None"
  shows "industryId (setIndustryId v s) = v
         \<and> segmentId (setIndustryId v s) = ''''
         \<and> useCaseId (setIndustryId v s) = ''''
         \<and> answers (setIndustryId v s) = Map.empty
         \<and> useCase (setIndustryId v s) = None
         \<and> setIndustryId v s
           = s\<lparr>industryId := v, segmentId := '''', useCaseId := '''', answers := Map.empty\<rparr>
         \<and> setIndustryId (industryId s) s = s"
  using assms by (simp add: setIndustryId_changed setIndustryId_same useCase_answers)

theorem setIndustryId_cascade_witness:
  "''health'' \<noteq> industryId example_selected
   \<and> useCase (example_selected\<lparr>industryId := ''health'', segmentId := '''', useCaseId := ''''\<rparr>)
     = None
   \<and> answers example_selected \<noteq> Map.empty
   \<and> useCase example_selected \<noteq> None
   \<and> segmentId (setIndustryId ''health'' example_selected) = ''''
   \<and> useCaseId (setIndustryId ''health'' example_selected) = ''''
   \<and> answers (setIndustryId ''health'' example_selected) = Map.empty"
proof -
  have h1: "''health'' \<noteq> industryId example_selected"
    by (simp add: example_selected_def example_loaded_def)
  have h2: "useCase (example_selected\<lparr>industryId := ''health'', segmentId := '''',
                                      useCaseId := ''''\<rparr>) = None"
    by (simp add: example_selected_def example_loaded_def example_industries_def
          useCase_def useCases_def segments_def)
  have h3: "answers example_selected \<noteq> Map.empty"
    by (simp add: example_selected_def example_loaded_def)
  from setIndustryId_cascade [OF h1 h2] h1 h2 h3 show ?thesis
    by (simp add: useCase_example_selected)
qed

text \<open>
  C3 as stated fails for the id that is already selected: in the example session, with
  answers and a use case, choosing \<open>fin\<close> again leaves segment, use case and answers.
\<close>

theorem setIndustryId_same_counterexample:
  "industryId example_selected = ''fin''
   \<and> answers example_selected \<noteq> Map.empty
   \<and> useCase example_selected \<noteq> None
   \<and> segmentId (setIndustryId ''fin'' example_selected) = ''bank''
   \<and> useCaseId (setIndustryId ''fin'' example_selected) = ''kyc''
   \<and> answers (setIndustryId ''fin'' example_selected) ''a'' = Some (JBool True)"
proof -
  have i: "industryId example_selected = ''fin''"
    by (simp add: example_selected_def example_loaded_def)
  have "setIndustryId ''fin'' example_selected = example_selected"
    using setIndustryId_same [of example_selected] by (simp only: i)
  then show ?thesis
    by (simp add: useCase_example_selected) (simp add: example_selected_def example_loaded_def)
qed

subsection \<open>Default answers\<close>










subsection \<open>Readiness\<close>

lemma some_key_iff: "(\<exists>k. obj_get obj k \<noteq> None) \<longleftrightarrow> obj \<noteq> []"
  by (cases obj) (auto simp: obj_get_def)

text \<open>
  C5. \<open>canCreate\<close> holds exactly when industry, segment, use case and deployment
  environment are chosen, at least one model is selected and at least one pack is
  selected. With the first five in place and no pack selected it is false, and it is true
  after one pack has been toggled in.
\<close>

theorem canCreate_readiness:
  "(canCreate s \<longleftrightarrow>
      industryId s \<noteq> '''' \<and> segmentId s \<noteq> '''' \<and> useCaseId s \<noteq> ''''
      \<and> deploymentEnvironment s \<noteq> None
      \<and> selectedLlms s \<noteq> []
      \<and> (\<exists>k. obj_get (selectedPacks s) k \<noteq> None))
   \<and> (industryId s \<noteq> '''' \<and> segmentId s \<noteq> '''' \<and> useCaseId s \<noteq> ''''
      \<and> deploymentEnvironment s \<noteq> None \<and> selectedLlms s \<noteq> [] \<and> selectedPacks s = []
      \<longrightarrow> \<not> canCreate s
          \<and> canCreate (s\<lparr>selectedPacks := togglePack domain pack_id versions (selectedPacks s)\<rparr>)
          \<and> length (obj_values (togglePack domain pack_id versions (selectedPacks s))) = 1)"
proof -
  have iff: "canCreate t \<longleftrightarrow>
      industryId t \<noteq> '''' \<and> segmentId t \<noteq> '''' \<and> useCaseId t \<noteq> ''''
      \<and> deploymentEnvironment t \<noteq> None
      \<and> selectedLlms t \<noteq> []
      \<and> (\<exists>k. obj_get (selectedPacks t) k \<noteq> None)" for t
    unfolding some_key_iff by (simp add: canCreate_def obj_values_def)
  have tog: "togglePack domain pack_id versions []
             = [(pack_key domain pack_id,
                 \<lparr>sp_domain = domain, sp_pack_id = pack_id,
                  sp_version = latestVersion versions\<rparr>)]"
    by (simp add: togglePack_def Let_def obj_get_def)
  show ?thesis
  proof (intro conjI impI)
    show "canCreate s \<longleftrightarrow>
      industryId s \<noteq> '''' \<and> segmentId s \<noteq> '''' \<and> useCaseId s \<noteq> ''''
      \<and> deploymentEnvironment s \<noteq> None
      \<and> selectedLlms s \<noteq> []
      \<and> (\<exists>k. obj_get (selectedPacks s) k \<noteq> None)"
      by (rule iff)
  next
    assume a: "industryId s \<noteq> '''' \<and> segmentId s \<noteq> '''' \<and> useCaseId s \<noteq> ''''
      \<and> deploymentEnvironment s \<noteq> None \<and> selectedLlms s \<noteq> [] \<and> selectedPacks s = []"
    then show "\<not> canCreate s"
      by (simp add: canCreate_def obj_values_def)
    from a show "canCreate (s\<lparr>selectedPacks := togglePack domain pack_id versions (selectedPacks s)\<rparr>)"
      by (simp add: canCreate_def obj_values_def tog)
    from a show "length (obj_values (togglePack domain pack_id versions (selectedPacks s))) = 1"
      by (simp add: obj_values_def tog)
  qed
qed

theorem canCreate_readiness_witness:
  "industryId (example_selected\<lparr>deploymentEnvironment := Some AWS_Native,
                                selectedLlms := [''GPT-X'']\<rparr>) \<noteq> ''''
   \<and> selectedPacks (example_selected\<lparr>deploymentEnvironment := Some AWS_Native,
                                     selectedLlms := [''GPT-X'']\<rparr>) = []
   \<and> \<not> canCreate (example_selected\<lparr>deploymentEnvironment := Some AWS_Native,
                                    selectedLlms := [''GPT-X'']\<rparr>)
   \<and> canCreate (example_selected\<lparr>deploymentEnvironment := Some AWS_Native,
                                  selectedLlms := [''GPT-X''],
                                  selectedPacks := togglePack ''security'' ''p1'' [''1.0''] []\<rparr>)"
proof -
  let ?s = "example_selected\<lparr>deploymentEnvironment := Some AWS_Native,
                             selectedLlms := [''GPT-X'']\<rparr>"
  have h: "industryId ?s \<noteq> '''' \<and> segmentId ?s \<noteq> '''' \<and> useCaseId ?s \<noteq> ''''
      \<and> deploymentEnvironment ?s \<noteq> None \<and> selectedLlms ?s \<noteq> [] \<and> selectedPacks ?s = []"
    by (simp add: example_selected_def example_loaded_def)
  from canCreate_readiness [of ?s "''security''" "''p1''" "[''1.0'']"] h show ?thesis
    by (simp add: obj_get_def)
qed

subsection \<open>Submission\<close>

text \<open>
  C8. When \<open>createProject\<close> fails, \<open>onCreate\<close> leaves the page where it is and the only
  cell it has written is \<open>err\<close>, which holds the failure's message, or its string form
  when the message is missing or empty. Hierarchy, answers, models, packs and deployment
  environment are as before; so is every other cell.
\<close>

theorem onCreate_failure:
  assumes "createProject (build_payload s) = Inl e"
  shows "onCreate createProject s = (s\<lparr>err := Some (error_text e)\<rparr>, None)
         \<and> err (fst (onCreate createProject s))
           = Some (case f_message e of
                     None \<Rightarrow> f_string e
                   | Some m \<Rightarrow> if m = '''' then f_string e else m)
         \<and> industryId (fst (onCreate createProject s)) = industryId s
         \<and> segmentId (fst (onCreate createProject s)) = segmentId s
         \<and> useCaseId (fst (onCreate createProject s)) = useCaseId s
         \<and> answers (fst (onCreate createProject s)) = answers s
         \<and> selectedLlms (fst (onCreate createProject s)) = selectedLlms s
         \<and> selectedPacks (fst (onCreate createProject s)) = selectedPacks s
         \<and> deploymentEnvironment (fst (onCreate createProject s)) = deploymentEnvironment s
         \<and> build_payload (fst (onCreate createProject s)) = build_payload s
         \<and> (\<forall>s'. onCreate_catch e s' = s'\<lparr>err := Some (error_text e)\<rparr>)"
proof -
  have "onCreate createProject s = (s\<lparr>err := Some (error_text e)\<rparr>, None)"
    using assms by (simp add: onCreate_def onCreate_catch_def)
  then show ?thesis
    by (simp add: error_text_def onCreate_catch_def build_payload_def)
qed

theorem onCreate_failure_witness:
  "(\<lambda>p. Inl \<lparr>f_message = Some ''Request failed: 500'', f_string = ''Error: Request failed: 500''\<rparr>)
     (build_payload example_selected)
   = (Inl \<lparr>f_message = Some ''Request failed: 500'', f_string = ''Error: Request failed: 500''\<rparr>
        :: failure + response)
   \<and> onCreate
       (\<lambda>p. Inl \<lparr>f_message = Some ''Request failed: 500'',
                  f_string = ''Error: Request failed: 500''\<rparr>)
       example_selected
     = (example_selected\<lparr>err := Some ''Request failed: 500''\<rparr>, None)"
proof -
  let ?e = "\<lparr>f_message = Some ''Request failed: 500'', f_string = ''Error: Request failed: 500''\<rparr>"
  let ?cp = "\<lambda>p :: payload. (Inl ?e :: failure + response)"
  have h: "?cp (build_payload example_selected) = Inl ?e"
    by simp
  from onCreate_failure [of ?cp example_selected ?e, OF h] show ?thesis
    by (simp add: error_text_def)
qed

subsection \<open>The model filter\<close>








subsection \<open>The pack sort\<close>













end
